theory Spec2Isabelle
  imports Complex_Main "HOL-Library.Signed_Division"
begin

section \<open>El 32 landing scripts: ambient light field driver and gallery lightbox\<close>

text \<open>
  A shallow embedding of two components of \<^verbatim>\<open>src/js/main.js\<close>: the ambient light field
  driver (first IIFE) and the party gallery lightbox (the IIFE with the swipe handling).

  JavaScript numbers are modelled as exact numbers: \<^typ>\<open>real\<close> for pixel offsets, times and
  opacities, \<^typ>\<open>int\<close> for list positions and pointer ids. A variable that can hold \<^verbatim>\<open>NaN\<close>
  or \<^verbatim>\<open>null\<close> is an \<^typ>\<open>'a option\<close>, with \<^term>\<open>None\<close> for \<^verbatim>\<open>NaN\<close> or \<^verbatim>\<open>null\<close>.
  Rounding of IEEE doubles is not modelled.
\<close>

subsection \<open>Ambient driver: capability flags and tuning constants\<close>

text \<open>
  The flags computed once at the top of the first IIFE. \<open>hasTurbulence\<close> says whether
  \<^verbatim>\<open>document.getElementById("el32-turbulence")\<close> found an element.
\<close>

record caps =
  prefersReducedMotion :: bool
  isMobile :: bool
  isIOSSafari :: bool
  lowCoreDevice :: bool
  hasTurbulence :: bool

definition ultraOK :: "caps \<Rightarrow> bool" where
  "ultraOK c =
     (\<not> prefersReducedMotion c \<and> \<not> isMobile c \<and> \<not> isIOSSafari c \<and> \<not> lowCoreDevice c)"

definition AMP_X :: "caps \<Rightarrow> real" where
  "AMP_X c = (if prefersReducedMotion c then 8 else (if isMobile c then 24 else 56))"

definition AMP_Y :: "caps \<Rightarrow> real" where
  "AMP_Y c = (if prefersReducedMotion c then 6 else (if isMobile c then 16 else 40))"

definition ENABLE_TURBULENCE :: "caps \<Rightarrow> bool" where
  "ENABLE_TURBULENCE c = (ultraOK c \<and> hasTurbulence c)"

definition TURB_UPDATE_MS :: real where
  "TURB_UPDATE_MS = 160"

definition BASE_FREQ_X :: real where
  "BASE_FREQ_X = 0.012"

definition BASE_FREQ_Y :: real where
  "BASE_FREQ_Y = 0.018"

definition TURB_VARIANCE :: "caps \<Rightarrow> real" where
  "TURB_VARIANCE c = (if prefersReducedMotion c then 0.0004 else 0.0020)"

definition FRAME_MIN_MS :: real where
  "FRAME_MIN_MS = 33"

subsection \<open>Ambient driver: state\<close>

text \<open>
  The closure variables of the driver, the three CSS custom properties it writes on the
  light field element, the \<^verbatim>\<open>baseFrequency\<close> attribute of the turbulence element, and the
  part of the browser the driver talks to: the list of pending animation frame callbacks
  (all of them are \<^verbatim>\<open>tick\<close>, so a handle identifies one) and the counter from which
  \<^verbatim>\<open>requestAnimationFrame\<close> draws its handles (the first handle is 1).
  \<open>lastX\<close>, \<open>lastY\<close> and \<open>lastR\<close> start as \<^verbatim>\<open>NaN\<close>, which is \<^term>\<open>None\<close>.
\<close>

record ambient =
  rafId :: "nat option"
  lastFrame :: real
  lastTurb :: real
  lastX :: "real option"
  lastY :: "real option"
  lastR :: "real option"
  lf_x :: "real option"
  lf_y :: "real option"
  lf_r :: "real option"
  baseFrequency :: "(real \<times> real) option"
  pending :: "nat list"
  rafCounter :: nat

definition ambient0 :: ambient where
  "ambient0 =
     \<lparr>rafId = None, lastFrame = 0, lastTurb = 0,
      lastX = None, lastY = None, lastR = None,
      lf_x = None, lf_y = None, lf_r = None,
      baseFrequency = None, pending = [], rafCounter = 0\<rparr>"

text \<open>\<^verbatim>\<open>Math.abs(a - b) <= eps\<close>, where \<open>b\<close> may be \<^verbatim>\<open>NaN\<close>: a comparison with \<^verbatim>\<open>NaN\<close> is false.\<close>

definition nearlyEqual :: "real \<Rightarrow> real option \<Rightarrow> real \<Rightarrow> bool" where
  "nearlyEqual a b eps = (case b of None \<Rightarrow> False | Some b' \<Rightarrow> \<bar>a - b'\<bar> \<le> eps)"

text \<open>\<^verbatim>\<open>!rafId\<close>: \<^verbatim>\<open>null\<close> and the number 0 are falsy.\<close>

definition falsy :: "nat option \<Rightarrow> bool" where
  "falsy h = (case h of None \<Rightarrow> True | Some n \<Rightarrow> n = 0)"

text \<open>\<^verbatim>\<open>rafId = requestAnimationFrame(tick)\<close> and \<^verbatim>\<open>cancelAnimationFrame(h)\<close>.\<close>

definition requestTick :: "ambient \<Rightarrow> ambient" where
  "requestTick s =
     (let h = rafCounter s + 1
      in s\<lparr>rafCounter := h, pending := pending s @ [h], rafId := Some h\<rparr>)"

definition cancelAnimationFrame :: "nat \<Rightarrow> ambient \<Rightarrow> ambient" where
  "cancelAnimationFrame h s = s\<lparr>pending := filter (\<lambda>k. k \<noteq> h) (pending s)\<rparr>"

subsection \<open>Ambient driver: tick, start, stop\<close>

text \<open>The local constants \<^verbatim>\<open>x\<close>, \<^verbatim>\<open>y\<close> and \<^verbatim>\<open>rotation\<close> of \<^verbatim>\<open>tick(time)\<close>.\<close>

definition tick_x :: "caps \<Rightarrow> real \<Rightarrow> real" where
  "tick_x c time =
     (let t = time * 0.001;
          travelX = sin (t * 0.10) * (AMP_X c * 0.55)
      in travelX + sin (t * 0.35) * AMP_X c + sin (t * 0.18) * (AMP_X c * 0.55))"

definition tick_y :: "caps \<Rightarrow> real \<Rightarrow> real" where
  "tick_y c time =
     (let t = time * 0.001;
          travelY = cos (t * 0.09) * (AMP_Y c * 0.55)
      in travelY + cos (t * 0.30) * AMP_Y c + sin (t * 0.22) * (AMP_Y c * 0.65))"

definition tick_rotation :: "caps \<Rightarrow> real \<Rightarrow> real" where
  "tick_rotation c time =
     (let t = time * 0.001
      in sin (t * 0.12) * (if prefersReducedMotion c then 0.2 else 1.0))"

definition writeX :: "real \<Rightarrow> ambient \<Rightarrow> ambient" where
  "writeX x s = (if \<not> nearlyEqual x (lastX s) 0.06 then s\<lparr>lf_x := Some x, lastX := Some x\<rparr> else s)"

definition writeY :: "real \<Rightarrow> ambient \<Rightarrow> ambient" where
  "writeY y s = (if \<not> nearlyEqual y (lastY s) 0.06 then s\<lparr>lf_y := Some y, lastY := Some y\<rparr> else s)"

definition writeR :: "real \<Rightarrow> ambient \<Rightarrow> ambient" where
  "writeR r s = (if \<not> nearlyEqual r (lastR s) 0.012 then s\<lparr>lf_r := Some r, lastR := Some r\<rparr> else s)"

definition writeTurbulence :: "caps \<Rightarrow> real \<Rightarrow> ambient \<Rightarrow> ambient" where
  "writeTurbulence c time s =
     (if ENABLE_TURBULENCE c \<and> time - lastTurb s > TURB_UPDATE_MS
      then (let t = time * 0.001;
                freqX = BASE_FREQ_X + sin (t * 0.22) * TURB_VARIANCE c;
                freqY = BASE_FREQ_Y + cos (t * 0.19) * TURB_VARIANCE c
            in s\<lparr>lastTurb := time, baseFrequency := Some (freqX, freqY)\<rparr>)
      else s)"

definition tick :: "caps \<Rightarrow> real \<Rightarrow> ambient \<Rightarrow> ambient" where
  "tick c time s =
     (if time - lastFrame s < FRAME_MIN_MS then requestTick s
      else requestTick
             (writeTurbulence c time
               (writeR (tick_rotation c time)
                 (writeY (tick_y c time)
                   (writeX (tick_x c time) (s\<lparr>lastFrame := time\<rparr>))))))"

definition stop :: "ambient \<Rightarrow> ambient" where
  "stop s =
     (case rafId s of
        None \<Rightarrow> s
      | Some h \<Rightarrow> if falsy (Some h) then s else (cancelAnimationFrame h s)\<lparr>rafId := None\<rparr>)"

definition start :: "ambient \<Rightarrow> ambient" where
  "start s =
     (if \<not> falsy (rafId s) then s
      else requestTick (s\<lparr>lastFrame := 0, lastTurb := 0\<rparr>))"

text \<open>
  The driver is set up only when the light field element exists; setting it up calls
  \<^verbatim>\<open>start()\<close> once.
\<close>

definition ambient_init :: "bool \<Rightarrow> ambient option" where
  "ambient_init hasLightfield = (if \<not> hasLightfield then None else Some (start ambient0))"

text \<open>
  What can happen to the driver afterwards: the browser runs the pending animation frame
  callbacks with a timestamp (it empties the list first, then calls each callback), the
  document's visibility changes (the flag is \<^verbatim>\<open>document.hidden\<close>), the page is hidden or
  shown.
\<close>

datatype amb_event = AnimationFrame real | VisibilityChange bool | PageHide | PageShow

fun amb_step :: "caps \<Rightarrow> amb_event \<Rightarrow> ambient \<Rightarrow> ambient" where
  "amb_step c (AnimationFrame time) s = fold (\<lambda>_. tick c time) (pending s) (s\<lparr>pending := []\<rparr>)"
| "amb_step c (VisibilityChange hidden) s = (if hidden then stop s else start s)"
| "amb_step c PageHide s = stop s"
| "amb_step c PageShow s = start s"

definition amb_run :: "caps \<Rightarrow> amb_event list \<Rightarrow> ambient \<Rightarrow> ambient" where
  "amb_run c evs s = fold (amb_step c) evs s"

text \<open>The loop bookkeeping is consistent: the pending callbacks are exactly the handle in \<open>rafId\<close>.\<close>

definition one_loop :: "ambient \<Rightarrow> bool" where
  "one_loop s =
     (case rafId s of None \<Rightarrow> pending s = []
      | Some h \<Rightarrow> pending s = [h] \<and> 0 < h \<and> h \<le> rafCounter s)"

text \<open>The cache holds what was last written to the style properties.\<close>

definition cache_ok :: "ambient \<Rightarrow> bool" where
  "cache_ok s = (lastX s = lf_x s \<and> lastY s = lf_y s \<and> lastR s = lf_r s)"

subsection \<open>Lightbox: what the start-up lookups find\<close>

text \<open>
  A gallery tile is an \<^verbatim>\<open>img\<close> element: its identity and the two attributes that
  \<^verbatim>\<open>getFullSrc\<close> reads (\<^term>\<open>None\<close> when \<^verbatim>\<open>getAttribute\<close> returns \<^verbatim>\<open>null\<close>).
\<close>

record tile =
  elem :: nat
  data_full :: "string option"
  src_attr :: "string option"

record lb_dom =
  tiles :: "tile list"
  hasLightbox :: bool
  hasImg :: bool
  hasStage :: bool
  hasPrev :: bool
  hasNext :: bool
  hasScroller :: bool

subsection \<open>Lightbox: state\<close>

text \<open>
  The callbacks the code hands to \<^verbatim>\<open>animateTo\<close>: the snap-back callback of a cancelled
  swipe, and the callback of a committed swipe, which closes over \<^verbatim>\<open>dir\<close> and \<^verbatim>\<open>w\<close>.
  The callbacks handed to \<^verbatim>\<open>requestAnimationFrame\<close>: the one inside \<^verbatim>\<open>animateTo\<close>
  (closing over \<^verbatim>\<open>dx\<close>, \<^verbatim>\<open>opacity\<close> and \<^verbatim>\<open>cb\<close>) and the slide-in at the end of a commit.
\<close>

datatype done_cb = CancelCb | CommitCb int real

datatype frame_cb = Animate real real done_cb | SlideIn

text \<open>
  The closure variables of the lightbox IIFE, then the parts of the page it writes:
  \<^verbatim>\<open>lb.hidden\<close>, the scroller's \<^verbatim>\<open>overflow: hidden\<close>, the image's \<^verbatim>\<open>src\<close>, its class
  \<^verbatim>\<open>is-dragging\<close>, its \<^verbatim>\<open>translate3d\<close> offset and its opacity (\<^term>\<open>None\<close> is the empty style
  string), the sources handed to \<^verbatim>\<open>preload\<close>, the pending animation frame callbacks and
  the one-shot \<^verbatim>\<open>transitionend\<close> listeners on the image. Focus handling, \<^verbatim>\<open>aria-hidden\<close>
  (which mirrors \<^verbatim>\<open>lb.hidden\<close>) and pointer capture are left out.
\<close>

record lightbox =
  index :: "int option"
  isOpen :: bool
  pointerDown :: bool
  startX :: real
  deltaX :: real
  startT :: real
  activePointerId :: "int option"
  isAnimating :: bool
  lbHidden :: bool
  scrollerLocked :: bool
  imgSrc :: string
  isDragging :: bool
  transform :: "real option"
  opacity :: "real option"
  preloaded :: "string list"
  rafQueue :: "frame_cb list"
  transitionListeners :: "done_cb list"

definition lightbox0 :: lightbox where
  "lightbox0 =
     \<lparr>index = Some 0, isOpen = False, pointerDown = False, startX = 0, deltaX = 0,
      startT = 0, activePointerId = None, isAnimating = False,
      lbHidden = True, scrollerLocked = False, imgSrc = [], isDragging = False,
      transform = None, opacity = None, preloaded = [], rafQueue = [],
      transitionListeners = []\<rparr>"

text \<open>The IIFE returns before wiring anything when a required element is missing.\<close>

definition lightbox_init :: "lb_dom \<Rightarrow> lightbox option" where
  "lightbox_init d =
     (if length (tiles d) = 0 \<or> \<not> hasLightbox d then None
      else if \<not> hasImg d \<or> \<not> hasStage d then None
      else Some lightbox0)"

subsection \<open>Lightbox: helpers\<close>

definition clamp :: "real \<Rightarrow> real \<Rightarrow> real \<Rightarrow> real" where
  "clamp v lo hi = max lo (min hi v)"

text \<open>
  \<^verbatim>\<open>a % n\<close> on numbers that are integers or \<^verbatim>\<open>NaN\<close>: \<^verbatim>\<open>NaN\<close> when \<open>a\<close> is \<^verbatim>\<open>NaN\<close> or
  \<open>n\<close> is 0, otherwise the remainder with the sign of the dividend.
\<close>

definition js_rem :: "int option \<Rightarrow> int \<Rightarrow> int option" where
  "js_rem a n = (case a of None \<Rightarrow> None | Some k \<Rightarrow> if n = 0 then None else Some (k smod n))"

text \<open>\<^verbatim>\<open>a + k\<close> where \<open>a\<close> may be \<^verbatim>\<open>NaN\<close>.\<close>

definition js_add :: "int option \<Rightarrow> int \<Rightarrow> int option" where
  "js_add a k = (case a of None \<Rightarrow> None | Some j \<Rightarrow> Some (j + k))"

text \<open>\<^verbatim>\<open>tiles[j]\<close>: \<^verbatim>\<open>undefined\<close> unless \<open>j\<close> is a position of the array.\<close>

definition tileAt :: "tile list \<Rightarrow> int option \<Rightarrow> tile option" where
  "tileAt ts j =
     (case j of None \<Rightarrow> None
      | Some k \<Rightarrow> if 0 \<le> k \<and> k < int (length ts) then Some (ts ! nat k) else None)"

text \<open>\<^verbatim>\<open>a || b\<close> for an attribute value \<open>a\<close>: \<^verbatim>\<open>null\<close> and the empty string are falsy.\<close>

definition or_else :: "string option \<Rightarrow> string \<Rightarrow> string" where
  "or_else a b = (case a of None \<Rightarrow> b | Some v \<Rightarrow> if v = [] then b else v)"

definition getFullSrc :: "tile list \<Rightarrow> int option \<Rightarrow> string" where
  "getFullSrc ts i =
     (case tileAt ts (js_rem (js_add i (int (length ts))) (int (length ts))) of
        None \<Rightarrow> []
      | Some t \<Rightarrow> or_else (data_full t) (or_else (src_attr t) []))"

definition preload :: "string \<Rightarrow> lightbox \<Rightarrow> lightbox" where
  "preload src s = (if src = [] then s else s\<lparr>preloaded := preloaded s @ [src]\<rparr>)"

definition setIndex :: "lb_dom \<Rightarrow> int option \<Rightarrow> lightbox \<Rightarrow> lightbox" where
  "setIndex d nextIndex s =
     (let idx = js_rem (js_add nextIndex (int (length (tiles d)))) (int (length (tiles d)));
          s1 = s\<lparr>index := idx\<rparr>;
          src = getFullSrc (tiles d) idx
      in if src = [] then s1
         else preload (getFullSrc (tiles d) (js_add idx 1))
                (preload (getFullSrc (tiles d) (js_add idx (- 1)))
                  (s1\<lparr>imgSrc := src\<rparr>)))"

definition prev_lb :: "lb_dom \<Rightarrow> lightbox \<Rightarrow> lightbox" where
  "prev_lb d s = setIndex d (js_add (index s) (- 1)) s"

definition next_lb :: "lb_dom \<Rightarrow> lightbox \<Rightarrow> lightbox" where
  "next_lb d s = setIndex d (js_add (index s) 1) s"

subsection \<open>Lightbox: open and close\<close>

definition open_lb :: "lb_dom \<Rightarrow> int \<Rightarrow> lightbox \<Rightarrow> lightbox" where
  "open_lb d i s =
     (if isOpen s then s
      else setIndex d (Some i)
             (s\<lparr>isOpen := True, lbHidden := False,
                scrollerLocked := (if hasScroller d then True else scrollerLocked s),
                isDragging := False, transform := None, opacity := None\<rparr>))"

definition close_lb :: "lb_dom \<Rightarrow> lightbox \<Rightarrow> lightbox" where
  "close_lb d s =
     (if \<not> isOpen s then s
      else s\<lparr>isOpen := False, lbHidden := True,
             scrollerLocked := (if hasScroller d then False else scrollerLocked s),
             isDragging := False, transform := None, opacity := None\<rparr>)"

text \<open>\<^verbatim>\<open>tiles.indexOf(img)\<close>, where \<open>img\<close> is \<^verbatim>\<open>null\<close> when the button holds no image.\<close>

fun index_from :: "nat list \<Rightarrow> nat \<Rightarrow> int \<Rightarrow> int" where
  "index_from [] x k = - 1"
| "index_from (y # ys) x k = (if y = x then k else index_from ys x (k + 1))"

definition indexOf :: "tile list \<Rightarrow> nat option \<Rightarrow> int" where
  "indexOf ts img = (case img of None \<Rightarrow> - 1 | Some e \<Rightarrow> index_from (map elem ts) e 0)"

definition gallery_click :: "lb_dom \<Rightarrow> nat option \<Rightarrow> lightbox \<Rightarrow> lightbox" where
  "gallery_click d img s = (let i = indexOf (tiles d) img in if i \<ge> 0 then open_lb d i s else s)"

definition keydown :: "lb_dom \<Rightarrow> string \<Rightarrow> lightbox \<Rightarrow> lightbox" where
  "keydown d key s =
     (if \<not> isOpen s then s
      else let s1 = (if key = ''Escape'' then close_lb d s else s);
               s2 = (if key = ''ArrowLeft'' then prev_lb d s1 else s1)
           in (if key = ''ArrowRight'' then next_lb d s2 else s2))"

subsection \<open>Lightbox: swipe\<close>

definition setDragVisual :: "real \<Rightarrow> real \<Rightarrow> lightbox \<Rightarrow> lightbox" where
  "setDragVisual innerWidth dx s =
     (let w = max 320 innerWidth;
          progress = clamp (\<bar>dx\<bar> / (w * 0.9)) 0 1;
          opac = 1 - progress * 0.25
      in s\<lparr>transform := Some dx, opacity := Some opac\<rparr>)"

definition resetVisual :: "lightbox \<Rightarrow> lightbox" where
  "resetVisual s = s\<lparr>transform := None, opacity := None\<rparr>"

definition animateTo :: "real \<Rightarrow> real \<Rightarrow> done_cb \<Rightarrow> lightbox \<Rightarrow> lightbox" where
  "animateTo dx opac cb s =
     (if isAnimating s then s
      else s\<lparr>isAnimating := True, isDragging := False,
             rafQueue := rafQueue s @ [Animate dx opac cb]\<rparr>)"

definition pointerdown :: "int \<Rightarrow> real \<Rightarrow> real \<Rightarrow> lightbox \<Rightarrow> lightbox" where
  "pointerdown pointerId clientX now s =
     (if \<not> isOpen s \<or> isAnimating s then s
      else s\<lparr>pointerDown := True, activePointerId := Some pointerId, startX := clientX,
             deltaX := 0, startT := now, isDragging := True\<rparr>)"

definition pointermove :: "int \<Rightarrow> real \<Rightarrow> real \<Rightarrow> lightbox \<Rightarrow> lightbox" where
  "pointermove pointerId clientX innerWidth s =
     (if \<not> pointerDown s \<or> Some pointerId \<noteq> activePointerId s then s
      else setDragVisual innerWidth (clientX - startX s) (s\<lparr>deltaX := clientX - startX s\<rparr>))"

text \<open>
  \<^verbatim>\<open>finishSwipe\<close> is the listener of both \<^verbatim>\<open>pointerup\<close> and \<^verbatim>\<open>pointercancel\<close>; it takes
  no argument, so it reads nothing of the event. \<open>now\<close> is \<^verbatim>\<open>performance.now()\<close> and
  \<open>innerWidth\<close> is \<^verbatim>\<open>window.innerWidth\<close> at the call.
\<close>

definition finishSwipe :: "real \<Rightarrow> real \<Rightarrow> lightbox \<Rightarrow> lightbox" where
  "finishSwipe now innerWidth s =
     (if \<not> pointerDown s then s
      else
        let s1 = s\<lparr>pointerDown := False\<rparr>;
            w = max 320 innerWidth;
            elapsed = max 1 (now - startT s1);
            velocity = deltaX s1 / elapsed;
            distanceOK = (\<bar>deltaX s1\<bar> > w * 0.18);
            velocityOK = (\<bar>velocity\<bar> > 0.65);
            dir = (if deltaX s1 < 0 then 1 else - 1 :: int)
        in if \<not> (distanceOK \<or> velocityOK) then animateTo 0 1 CancelCb s1
           else animateTo (if dir = 1 then - w else w) 0.9 (CommitCb dir w) s1)"

text \<open>The body of the \<^verbatim>\<open>requestAnimationFrame\<close> callbacks.\<close>

fun run_frame_cb :: "frame_cb \<Rightarrow> lightbox \<Rightarrow> lightbox" where
  "run_frame_cb (Animate dx opac cb) s =
     s\<lparr>transform := Some dx, opacity := Some opac,
       transitionListeners := transitionListeners s @ [cb]\<rparr>"
| "run_frame_cb SlideIn s = resetVisual (s\<lparr>isDragging := False\<rparr>)"

text \<open>The listener \<^verbatim>\<open>done\<close> of \<^verbatim>\<open>animateTo\<close>: it clears the flag, then calls \<^verbatim>\<open>cb\<close>.\<close>

fun run_cb :: "lb_dom \<Rightarrow> done_cb \<Rightarrow> lightbox \<Rightarrow> lightbox" where
  "run_cb d CancelCb s = resetVisual s"
| "run_cb d (CommitCb dir w) s =
     (let s1 = (if dir = 1 then next_lb d s else prev_lb d s)
      in s1\<lparr>isDragging := True, transform := Some (if dir = 1 then w else - w),
            opacity := Some 0.9, rafQueue := rafQueue s1 @ [SlideIn]\<rparr>)"

definition done_lb :: "lb_dom \<Rightarrow> done_cb \<Rightarrow> lightbox \<Rightarrow> lightbox" where
  "done_lb d cb s = run_cb d cb (s\<lparr>isAnimating := False\<rparr>)"

subsection \<open>Lightbox: events\<close>

text \<open>
  Each event carries what its handler reads: the pointer id and \<^verbatim>\<open>clientX\<close> of a pointer
  event, and the readings of \<^verbatim>\<open>performance.now()\<close> or \<^verbatim>\<open>window.innerWidth\<close> the handler
  takes. \<open>GalleryClick img\<close> is a click inside a \<^verbatim>\<open>.gallery-btn\<close> whose first image is
  \<open>img\<close>. \<open>Frame\<close> is the browser running the pending animation frame callbacks, and
  \<open>TransitionEnd\<close> is a \<^verbatim>\<open>transitionend\<close> event on the image, which runs and removes the
  one-shot listeners.
\<close>

datatype lb_event =
    GalleryClick "nat option"
  | CloseClick
  | PrevClick
  | NextClick
  | KeyDown string
  | PointerDown int real real
  | PointerMove int real real
  | PointerUp int real real
  | PointerCancel int real real
  | Frame
  | TransitionEnd

fun lb_step :: "lb_dom \<Rightarrow> lb_event \<Rightarrow> lightbox \<Rightarrow> lightbox" where
  "lb_step d (GalleryClick img) s = gallery_click d img s"
| "lb_step d CloseClick s = close_lb d s"
| "lb_step d PrevClick s = (if hasPrev d then prev_lb d s else s)"
| "lb_step d NextClick s = (if hasNext d then next_lb d s else s)"
| "lb_step d (KeyDown key) s = keydown d key s"
| "lb_step d (PointerDown pointerId clientX now) s = pointerdown pointerId clientX now s"
| "lb_step d (PointerMove pointerId clientX innerWidth) s = pointermove pointerId clientX innerWidth s"
| "lb_step d (PointerUp pointerId now innerWidth) s = finishSwipe now innerWidth s"
| "lb_step d (PointerCancel pointerId now innerWidth) s = finishSwipe now innerWidth s"
| "lb_step d Frame s = fold run_frame_cb (rafQueue s) (s\<lparr>rafQueue := []\<rparr>)"
| "lb_step d TransitionEnd s = fold (done_lb d) (transitionListeners s) (s\<lparr>transitionListeners := []\<rparr>)"

definition lb_run :: "lb_dom \<Rightarrow> lb_event list \<Rightarrow> lightbox \<Rightarrow> lightbox" where
  "lb_run d evs s = fold (lb_step d) evs s"

subsection \<open>Lightbox: invariants of the reachable states\<close>

definition index_ok :: "lb_dom \<Rightarrow> lightbox \<Rightarrow> bool" where
  "index_ok d s = (case index s of None \<Rightarrow> False | Some i \<Rightarrow> 0 \<le> i \<and> i < int (length (tiles d)))"

definition is_slide :: "frame_cb \<Rightarrow> bool" where
  "is_slide f = (case f of SlideIn \<Rightarrow> True | Animate dx opac cb \<Rightarrow> False)"

definition anim_ok :: "lightbox \<Rightarrow> bool" where
  "anim_ok s =
     ((pointerDown s \<longrightarrow> \<not> isAnimating s) \<and>
      (\<not> isAnimating s \<longrightarrow> transitionListeners s = [] \<and> list_all is_slide (rafQueue s)) \<and>
      (transitionListeners s \<noteq> [] \<longrightarrow> list_all is_slide (rafQueue s)))"

subsection \<open>Concrete inputs\<close>

text \<open>
  A page with three tiles (the third has an empty \<^verbatim>\<open>data-full\<close>), the lightbox opened on
  the second tile, and drags on it: 55 pixels to the right on a viewport 300 wide, half a
  pixel to the right on a viewport 1000 wide, 400 pixels to the left on a viewport 1000
  wide, and the last one released after 200 milliseconds. Then a device class for the
  ambient driver and a driver state whose cache lies close to the values of the update
  at 1000 milliseconds.
\<close>

definition dom3 :: lb_dom where
  "dom3 =
     \<lparr>tiles =
        [\<lparr>elem = 10, data_full = Some ''a-full.jpg'', src_attr = Some ''a.jpg''\<rparr>,
         \<lparr>elem = 11, data_full = None, src_attr = Some ''b.jpg''\<rparr>,
         \<lparr>elem = 12, data_full = Some [], src_attr = Some ''c.jpg''\<rparr>],
      hasLightbox = True, hasImg = True, hasStage = True, hasPrev = True, hasNext = True,
      hasScroller = True\<rparr>"

definition ex_open :: lightbox where
  "ex_open = lb_run dom3 [GalleryClick (Some 11)] lightbox0"

definition ex_drag_narrow :: lightbox where
  "ex_drag_narrow = lb_run dom3 [PointerDown 1 100 0, PointerMove 1 155 300] ex_open"

definition ex_nudge :: lightbox where
  "ex_nudge = lb_run dom3 [PointerDown 1 100 0, PointerMove 1 100.5 1000] ex_open"

definition ex_swipe :: lightbox where
  "ex_swipe = lb_run dom3 [PointerDown 1 500 0, PointerMove 1 100 1000] ex_open"

definition ex_anim :: lightbox where
  "ex_anim = lb_run dom3 [PointerUp 1 200 1000] ex_swipe"

definition caps_mobile :: caps where
  "caps_mobile = \<lparr>prefersReducedMotion = False, isMobile = True, isIOSSafari = False,
     lowCoreDevice = True, hasTurbulence = True\<rparr>"

definition ex_cached :: ambient where
  "ex_cached = (start ambient0)
     \<lparr>lastX := Some (tick_x caps_mobile 1000 - 0.05), lf_x := Some (tick_x caps_mobile 1000 - 0.05),
      lastY := Some (tick_y caps_mobile 1000 + 1), lf_y := Some (tick_y caps_mobile 1000 + 1),
      lastR := Some (tick_rotation caps_mobile 1000 + 0.012),
      lf_r := Some (tick_rotation caps_mobile 1000 + 0.012)\<rparr>"

section \<open>Ambient driver: properties\<close>

subsection \<open>One loop at a time\<close>

lemma one_loop_requestTick_aux:
  "pending s = [] \<Longrightarrow> one_loop (requestTick s)"
  by (simp add: one_loop_def requestTick_def Let_def)

lemma pending_writes [simp]:
  "pending (writeX x s) = pending s" "pending (writeY y s) = pending s"
  "pending (writeR r s) = pending s" "pending (writeTurbulence c t s) = pending s"
  by (simp_all add: writeX_def writeY_def writeR_def writeTurbulence_def Let_def)

lemma one_loop_tick: "pending s = [] \<Longrightarrow> one_loop (tick c time s)"
  by (simp add: tick_def one_loop_requestTick_aux)

lemma one_loop_start: "one_loop s \<Longrightarrow> one_loop (start s)"
  by (auto simp: start_def one_loop_def falsy_def requestTick_def Let_def split: option.splits)

lemma one_loop_stop: "one_loop s \<Longrightarrow> one_loop (stop s)"
  by (auto simp: stop_def one_loop_def falsy_def cancelAnimationFrame_def split: option.splits)

lemma one_loop_frame: "one_loop s \<Longrightarrow> one_loop (amb_step c (AnimationFrame time) s)"
  by (cases "rafId s") (auto simp: one_loop_def intro: one_loop_tick[unfolded one_loop_def])

lemma one_loop_step: "one_loop s \<Longrightarrow> one_loop (amb_step c ev s)"
  by (cases ev) (simp_all add: one_loop_start one_loop_stop one_loop_frame del: amb_step.simps(1))

lemma one_loop_run: "one_loop s \<Longrightarrow> one_loop (amb_run c evs s)"
  unfolding amb_run_def by (induction evs arbitrary: s) (simp_all add: one_loop_step)

lemma one_loop_boot: "one_loop (start ambient0)"
  by (rule one_loop_start) (simp add: one_loop_def ambient0_def)

lemma start_running: "\<not> falsy (rafId (start s))"
  by (simp add: start_def requestTick_def falsy_def Let_def)

lemma stop_stopped: "falsy (rafId (stop s))"
  by (simp add: stop_def falsy_def cancelAnimationFrame_def split: option.splits)

text \<open>
  Claim C8. \<open>start\<close> and \<open>stop\<close> are idempotent; \<open>start\<close> on a running driver and \<open>stop\<close>
  on a stopped one change nothing; when the bookkeeping is consistent, \<open>start\<close> leaves
  exactly one pending callback and \<open>stop\<close> leaves none; and after any sequence of frames,
  visibility changes, page hides and page shows from start-up at most one callback is
  pending.
\<close>

theorem start_stop_idempotent:
  "start (start s) = start s \<and> stop (stop s) = stop s
   \<and> (\<not> falsy (rafId s) \<longrightarrow> start s = s)
   \<and> (falsy (rafId s) \<longrightarrow> stop s = s)
   \<and> (one_loop s \<longrightarrow> length (pending (start s)) = 1 \<and> pending (stop s) = [])
   \<and> length (pending (amb_run c evs (start ambient0))) \<le> 1"
proof -
  have 1: "start (start s) = start s"
    using start_running[of s] by (simp add: start_def[of "start s"])
  have 2: "stop (stop s) = stop s"
    using stop_stopped[of s] by (simp add: stop_def[of "stop s"] falsy_def split: option.splits)
  have 3: "\<not> falsy (rafId s) \<longrightarrow> start s = s" by (simp add: start_def)
  have 4: "falsy (rafId s) \<longrightarrow> stop s = s" by (simp add: stop_def falsy_def split: option.splits)
  have 5: "one_loop s \<longrightarrow> length (pending (start s)) = 1 \<and> pending (stop s) = []"
    by (auto simp: one_loop_def start_def stop_def falsy_def requestTick_def Let_def
        cancelAnimationFrame_def split: option.splits)
  have "one_loop (amb_run c evs (start ambient0))"
    by (rule one_loop_run[OF one_loop_boot])
  then have 6: "length (pending (amb_run c evs (start ambient0))) \<le> 1"
    by (auto simp: one_loop_def split: option.splits)
  from 1 2 3 4 5 6 show ?thesis by blast
qed

theorem start_stop_idempotent_witness:
  "\<not> falsy (rafId (start ambient0)) \<and> start (start ambient0) = start ambient0
   \<and> falsy (rafId ambient0) \<and> stop ambient0 = ambient0
   \<and> stop (stop (start ambient0)) = stop (start ambient0)
   \<and> one_loop (start ambient0) \<and> length (pending (start (start ambient0))) = 1
   \<and> pending (stop (start ambient0)) = []
   \<and> length (pending (amb_run caps_mobile
        [AnimationFrame 16, AnimationFrame 50, VisibilityChange True, PageShow, PageShow]
        (start ambient0))) \<le> 1"
proof -
  have h: "\<not> falsy (rafId (start ambient0))" "falsy (rafId ambient0)" "one_loop (start ambient0)"
    by (simp_all add: start_def requestTick_def ambient0_def falsy_def Let_def one_loop_def)
  show ?thesis
    using h start_stop_idempotent[of "start ambient0" caps_mobile
        "[AnimationFrame 16, AnimationFrame 50, VisibilityChange True, PageShow, PageShow]"]
      start_stop_idempotent[of ambient0 caps_mobile "[]"]
    by simp
qed

subsection \<open>Change-gated writes\<close>

lemma tick_executed:
  "\<not> time - lastFrame s < FRAME_MIN_MS \<Longrightarrow>
   tick c time s = requestTick (writeTurbulence c time (writeR (tick_rotation c time)
       (writeY (tick_y c time) (writeX (tick_x c time) (s\<lparr>lastFrame := time\<rparr>)))))"
  by (simp add: tick_def)

lemma chan_x [simp]:
  "lf_x (requestTick s) = lf_x s" "lastX (requestTick s) = lastX s"
  "lf_x (writeTurbulence c t s) = lf_x s" "lastX (writeTurbulence c t s) = lastX s"
  "lf_x (writeR r s) = lf_x s" "lastX (writeR r s) = lastX s"
  "lf_x (writeY y s) = lf_x s" "lastX (writeY y s) = lastX s"
  by (simp_all add: requestTick_def writeTurbulence_def writeR_def writeY_def Let_def)

lemma chan_y [simp]:
  "lf_y (requestTick s) = lf_y s" "lastY (requestTick s) = lastY s"
  "lf_y (writeTurbulence c t s) = lf_y s" "lastY (writeTurbulence c t s) = lastY s"
  "lf_y (writeR r s) = lf_y s" "lastY (writeR r s) = lastY s"
  "lf_y (writeX x s) = lf_y s" "lastY (writeX x s) = lastY s"
  by (simp_all add: requestTick_def writeTurbulence_def writeR_def writeX_def Let_def)

lemma chan_r [simp]:
  "lf_r (requestTick s) = lf_r s" "lastR (requestTick s) = lastR s"
  "lf_r (writeTurbulence c t s) = lf_r s" "lastR (writeTurbulence c t s) = lastR s"
  "lf_r (writeY y s) = lf_r s" "lastR (writeY y s) = lastR s"
  "lf_r (writeX x s) = lf_r s" "lastR (writeX x s) = lastR s"
  by (simp_all add: requestTick_def writeTurbulence_def writeY_def writeX_def Let_def)

lemma tick_chan_x:
  "\<not> time - lastFrame s < FRAME_MIN_MS \<Longrightarrow>
   lf_x (tick c time s) = lf_x (writeX (tick_x c time) s) \<and>
   lastX (tick c time s) = lastX (writeX (tick_x c time) s)"
  by (simp add: tick_executed) (simp add: writeX_def)

lemma tick_chan_y:
  "\<not> time - lastFrame s < FRAME_MIN_MS \<Longrightarrow>
   lf_y (tick c time s) = lf_y (writeY (tick_y c time) s) \<and>
   lastY (tick c time s) = lastY (writeY (tick_y c time) s)"
  by (simp add: tick_executed) (simp add: writeY_def)

lemma tick_chan_r:
  "\<not> time - lastFrame s < FRAME_MIN_MS \<Longrightarrow>
   lf_r (tick c time s) = lf_r (writeR (tick_rotation c time) s) \<and>
   lastR (tick c time s) = lastR (writeR (tick_rotation c time) s)"
  by (simp add: tick_executed) (simp add: writeR_def)

lemma tick_first_write:
  assumes "\<not> time - lastFrame s < FRAME_MIN_MS"
  shows "lastX s = None \<Longrightarrow> lf_x (tick c time s) = Some (tick_x c time)"
    and "lastY s = None \<Longrightarrow> lf_y (tick c time s) = Some (tick_y c time)"
    and "lastR s = None \<Longrightarrow> lf_r (tick c time s) = Some (tick_rotation c time)"
  using tick_chan_x[OF assms, of c] tick_chan_y[OF assms, of c] tick_chan_r[OF assms, of c]
  by (simp_all add: writeX_def writeY_def writeR_def nearlyEqual_def)

lemma cache_ok_tick: "cache_ok s \<Longrightarrow> cache_ok (tick c time s)"
  by (simp add: cache_ok_def tick_def)
     (simp add: requestTick_def Let_def writeX_def writeY_def writeR_def)

lemma cache_ok_fold_tick: "cache_ok s \<Longrightarrow> cache_ok (fold (\<lambda>_. tick c time) hs s)"
  by (induction hs arbitrary: s) (simp_all add: cache_ok_tick)

lemma cache_ok_start: "cache_ok s \<Longrightarrow> cache_ok (start s)"
  by (simp add: cache_ok_def start_def requestTick_def Let_def)

lemma cache_ok_stop: "cache_ok s \<Longrightarrow> cache_ok (stop s)"
  by (simp add: cache_ok_def stop_def cancelAnimationFrame_def split: option.splits)

lemma cache_ok_step: "cache_ok s \<Longrightarrow> cache_ok (amb_step c ev s)"
proof (cases ev)
  case (AnimationFrame time)
  assume "cache_ok s"
  then have "cache_ok (s\<lparr>pending := []\<rparr>)" by (simp add: cache_ok_def)
  then show ?thesis unfolding AnimationFrame by (simp add: cache_ok_fold_tick)
qed (simp_all add: cache_ok_start cache_ok_stop)

lemma cache_ok_run: "cache_ok (amb_run c evs (start ambient0))"
proof -
  have "cache_ok (start ambient0)"
    by (rule cache_ok_start) (simp add: cache_ok_def ambient0_def)
  moreover have "cache_ok s \<Longrightarrow> cache_ok (amb_run c evs s)" for s
    unfolding amb_run_def by (induction evs arbitrary: s) (simp_all add: cache_ok_step)
  ultimately show ?thesis by blast
qed

text \<open>
  Claim C5. On an executed update (at least \<open>FRAME_MIN_MS\<close> since the last one), each of
  the three channels is compared with its cached last written value: when the new value is
  within the channel's epsilon (0.06 for x and y, 0.012 for the rotation) neither the
  style property nor the cache changes; when it differs by more, both take the new value.
\<close>

theorem write_suppression:
  assumes "\<not> time - lastFrame s < FRAME_MIN_MS"
  shows "(\<bar>tick_x c time - lx\<bar> \<le> 0.06 \<and> lastX s = Some lx \<longrightarrow>
            lf_x (tick c time s) = lf_x s \<and> lastX (tick c time s) = lastX s)
       \<and> (\<bar>tick_x c time - lx\<bar> > 0.06 \<and> lastX s = Some lx \<longrightarrow>
            lf_x (tick c time s) = Some (tick_x c time) \<and> lastX (tick c time s) = Some (tick_x c time))
       \<and> (\<bar>tick_y c time - ly\<bar> \<le> 0.06 \<and> lastY s = Some ly \<longrightarrow>
            lf_y (tick c time s) = lf_y s \<and> lastY (tick c time s) = lastY s)
       \<and> (\<bar>tick_y c time - ly\<bar> > 0.06 \<and> lastY s = Some ly \<longrightarrow>
            lf_y (tick c time s) = Some (tick_y c time) \<and> lastY (tick c time s) = Some (tick_y c time))
       \<and> (\<bar>tick_rotation c time - lr\<bar> \<le> 0.012 \<and> lastR s = Some lr \<longrightarrow>
            lf_r (tick c time s) = lf_r s \<and> lastR (tick c time s) = lastR s)
       \<and> (\<bar>tick_rotation c time - lr\<bar> > 0.012 \<and> lastR s = Some lr \<longrightarrow>
            lf_r (tick c time s) = Some (tick_rotation c time) \<and> lastR (tick c time s) = Some (tick_rotation c time))"
  using tick_chan_x[OF assms, of c] tick_chan_y[OF assms, of c] tick_chan_r[OF assms, of c]
  by (simp add: writeX_def writeY_def writeR_def nearlyEqual_def)

lemma ex_cached_fields:
  "lastFrame ex_cached = 0"
  "lastX ex_cached = Some (tick_x caps_mobile 1000 - 0.05)"
  "lf_x ex_cached = Some (tick_x caps_mobile 1000 - 0.05)"
  "lastY ex_cached = Some (tick_y caps_mobile 1000 + 1)"
  "lf_y ex_cached = Some (tick_y caps_mobile 1000 + 1)"
  "lastR ex_cached = Some (tick_rotation caps_mobile 1000 + 0.012)"
  "lf_r ex_cached = Some (tick_rotation caps_mobile 1000 + 0.012)"
  by (simp_all add: ex_cached_def start_def requestTick_def ambient0_def falsy_def Let_def)

theorem write_suppression_witness:
  "\<not> 1000 - lastFrame ex_cached < FRAME_MIN_MS
   \<and> lf_x (tick caps_mobile 1000 ex_cached) = lf_x ex_cached
   \<and> lf_y (tick caps_mobile 1000 ex_cached) = Some (tick_y caps_mobile 1000)
   \<and> lf_r (tick caps_mobile 1000 ex_cached) = lf_r ex_cached"
proof -
  have h: "\<not> 1000 - lastFrame ex_cached < FRAME_MIN_MS"
    by (simp add: ex_cached_fields FRAME_MIN_MS_def)
  show ?thesis
    using h write_suppression[OF h, of caps_mobile "tick_x caps_mobile 1000 - 0.05"
        "tick_y caps_mobile 1000 + 1" "tick_rotation caps_mobile 1000 + 0.012"]
    by (simp add: ex_cached_fields)
qed

subsection \<open>The drift formulas\<close>

text \<open>
  Claim C6. On an executed update at \<open>time\<close> milliseconds, with \<open>t = time * 0.001\<close>, the
  values handed to the three change-gated writes are
  \<open>x = sin (t*0.10)*AMP_X*0.55 + sin (t*0.35)*AMP_X + sin (t*0.18)*AMP_X*0.55\<close>,
  \<open>y = cos (t*0.09)*AMP_Y*0.55 + cos (t*0.30)*AMP_Y + sin (t*0.22)*AMP_Y*0.65\<close> and
  \<open>rotation = sin (t*0.12)\<close> times 0.2 under reduced motion and 1.0 otherwise, where
  \<open>(AMP_X, AMP_Y)\<close> is (8, 6) under reduced motion, (24, 16) on a compact viewport and
  (56, 40) otherwise; the amplitudes depend on the capability flags only.
\<close>

theorem ambient_formula:
  assumes exec: "\<not> time - lastFrame s < FRAME_MIN_MS"
    and t: "t = time * 0.001"
    and amp: "(ax, ay) = (if prefersReducedMotion c then (8, 6)
                          else if isMobile c then (24, 16) else (56, 40))"
    and x: "x = sin (t * 0.10) * ax * 0.55 + sin (t * 0.35) * ax + sin (t * 0.18) * ax * 0.55"
    and y: "y = cos (t * 0.09) * ay * 0.55 + cos (t * 0.30) * ay + sin (t * 0.22) * ay * 0.65"
    and r: "r = sin (t * 0.12) * (if prefersReducedMotion c then 0.2 else 1.0)"
  shows "AMP_X c = ax \<and> AMP_Y c = ay \<and>
         tick c time s =
           requestTick (writeTurbulence c time (writeR r (writeY y (writeX x
             (s\<lparr>lastFrame := time\<rparr>)))))"
proof -
  have a: "AMP_X c = ax" "AMP_Y c = ay"
    using amp by (auto simp: AMP_X_def AMP_Y_def split: if_splits)
  have "tick_x c time = x" by (simp add: tick_x_def Let_def a x t)
  moreover have "tick_y c time = y" by (simp add: tick_y_def Let_def a y t)
  moreover have "tick_rotation c time = r" by (simp add: tick_rotation_def Let_def r t)
  ultimately show ?thesis using a by (simp add: tick_executed[OF exec])
qed

theorem ambient_formula_witness:
  "\<not> 1000 - lastFrame (start ambient0) < FRAME_MIN_MS
   \<and> lf_x (tick caps_mobile 1000 (start ambient0)) =
       Some (sin (1 * 0.10) * 24 * 0.55 + sin (1 * 0.35) * 24 + sin (1 * 0.18) * 24 * 0.55)
   \<and> lf_y (tick caps_mobile 1000 (start ambient0)) =
       Some (cos (1 * 0.09) * 16 * 0.55 + cos (1 * 0.30) * 16 + sin (1 * 0.22) * 16 * 0.65)
   \<and> lf_r (tick caps_mobile 1000 (start ambient0)) = Some (sin (1 * 0.12) * 1.0)"
proof -
  have h: "\<not> 1000 - lastFrame (start ambient0) < FRAME_MIN_MS"
    "(1::real) = 1000 * 0.001"
    "(24::real, 16::real) = (if prefersReducedMotion caps_mobile then (8, 6)
        else if isMobile caps_mobile then (24, 16) else (56, 40))"
    by (simp_all add: start_def requestTick_def ambient0_def falsy_def Let_def FRAME_MIN_MS_def
        caps_mobile_def)
  have n: "lastX (start ambient0) = None" "lastY (start ambient0) = None"
    "lastR (start ambient0) = None"
    by (simp_all add: start_def requestTick_def ambient0_def falsy_def Let_def)
  show ?thesis
    using h(1) ambient_formula[OF h refl refl refl]
    by (simp add: writeX_def writeY_def writeR_def nearlyEqual_def n caps_mobile_def)
qed

section \<open>Lightbox: properties\<close>

subsection \<open>The position stays inside the tile list\<close>

lemma smod_nonneg: "0 \<le> a \<Longrightarrow> 0 < n \<Longrightarrow> (a::int) smod n = a mod n"
  by (simp add: signed_modulo_int_def sgn_if)

lemma js_rem_shift:
  "0 < n \<Longrightarrow> - n \<le> k \<Longrightarrow> js_rem (js_add (Some k) n) n = Some (k mod n)"
  by (simp add: js_rem_def js_add_def smod_nonneg)

lemma index_setIndex:
  "index (setIndex d k s) = js_rem (js_add k (int (length (tiles d)))) (int (length (tiles d)))"
  by (simp add: setIndex_def Let_def preload_def)

lemma index_setIndex_mod:
  "tiles d \<noteq> [] \<Longrightarrow> - int (length (tiles d)) \<le> k \<Longrightarrow>
   index (setIndex d (Some k) s) = Some (k mod int (length (tiles d)))"
  by (simp add: index_setIndex js_rem_shift)

lemma index_ok_setIndex:
  "tiles d \<noteq> [] \<Longrightarrow> - int (length (tiles d)) \<le> k \<Longrightarrow> index_ok d (setIndex d (Some k) s)"
  by (simp add: index_ok_def index_setIndex_mod)

lemma index_ok_prev: "tiles d \<noteq> [] \<Longrightarrow> index_ok d s \<Longrightarrow> index_ok d (prev_lb d s)"
  by (auto simp: prev_lb_def index_ok_def js_add_def index_setIndex_mod split: option.splits)

lemma index_ok_next: "tiles d \<noteq> [] \<Longrightarrow> index_ok d s \<Longrightarrow> index_ok d (next_lb d s)"
  by (auto simp: next_lb_def index_ok_def js_add_def index_setIndex_mod split: option.splits)

lemma index_from_range:
  "index_from xs x k = - 1 \<or> (k \<le> index_from xs x k \<and> index_from xs x k < k + int (length xs))"
  by (induction xs x k rule: index_from.induct) auto

lemma indexOf_range: "indexOf ts img = - 1 \<or> (0 \<le> indexOf ts img \<and> indexOf ts img < int (length ts))"
  using index_from_range[of "map elem ts" _ 0] by (auto simp: indexOf_def split: option.splits)

lemma index_ok_close: "index_ok d (close_lb d s) = index_ok d s"
  by (simp add: close_lb_def index_ok_def)

lemma index_ok_open:
  "tiles d \<noteq> [] \<Longrightarrow> 0 \<le> i \<Longrightarrow> index_ok d s \<Longrightarrow> index_ok d (open_lb d i s)"
  by (simp add: open_lb_def index_ok_setIndex)

lemma index_ok_click: "tiles d \<noteq> [] \<Longrightarrow> index_ok d s \<Longrightarrow> index_ok d (gallery_click d img s)"
  by (simp add: gallery_click_def Let_def index_ok_open)

lemma index_ok_keydown: "tiles d \<noteq> [] \<Longrightarrow> index_ok d s \<Longrightarrow> index_ok d (keydown d key s)"
  by (simp add: keydown_def Let_def index_ok_close index_ok_prev index_ok_next)

lemma index_pointer [simp]:
  "index (pointerdown p x t s) = index s"
  "index (pointermove p x w s) = index s"
  "index (finishSwipe t w s) = index s"
  "index (animateTo dx op cb s) = index s"
  "index (resetVisual s) = index s"
  by (simp_all add: pointerdown_def pointermove_def finishSwipe_def animateTo_def
      setDragVisual_def resetVisual_def Let_def)

lemma index_run_frame_cb [simp]: "index (run_frame_cb f s) = index s"
  by (cases f) (simp_all add: resetVisual_def)

lemma index_fold_frame [simp]: "index (fold run_frame_cb q s) = index s"
  by (induction q arbitrary: s) simp_all

lemma index_ok_done: "tiles d \<noteq> [] \<Longrightarrow> index_ok d s \<Longrightarrow> index_ok d (done_lb d cb s)"
proof (cases cb)
  case CancelCb
  assume "index_ok d s"
  then show "index_ok d (done_lb d cb s)"
    using CancelCb by (simp add: done_lb_def index_ok_def)
next
  case (CommitCb dir w)
  assume ne: "tiles d \<noteq> []" and ok: "index_ok d s"
  have ok': "index_ok d (s\<lparr>isAnimating := False\<rparr>)" using ok by (simp add: index_ok_def)
  show "index_ok d (done_lb d cb s)"
    using index_ok_next[OF ne ok'] index_ok_prev[OF ne ok'] CommitCb
    by (simp add: done_lb_def Let_def index_ok_def)
qed

lemma index_ok_fold_done:
  "tiles d \<noteq> [] \<Longrightarrow> index_ok d s \<Longrightarrow> index_ok d (fold (done_lb d) cbs s)"
  by (induction cbs arbitrary: s) (simp_all add: index_ok_done)

lemma index_ok_step: "tiles d \<noteq> [] \<Longrightarrow> index_ok d s \<Longrightarrow> index_ok d (lb_step d ev s)"
proof (cases ev)
  case TransitionEnd
  assume ne: "tiles d \<noteq> []" and ok: "index_ok d s"
  have "index_ok d (s\<lparr>transitionListeners := []\<rparr>)" using ok by (simp add: index_ok_def)
  then show ?thesis using TransitionEnd ne by (simp add: index_ok_fold_done)
qed (simp_all add: index_ok_click index_ok_close index_ok_prev index_ok_next index_ok_keydown,
     simp_all add: index_ok_def)

lemma index_ok_run: "tiles d \<noteq> [] \<Longrightarrow> index_ok d s \<Longrightarrow> index_ok d (lb_run d evs s)"
  unfolding lb_run_def by (induction evs arbitrary: s) (simp_all add: index_ok_step)

lemma setIndex_cong:
  "js_rem (js_add a (int (length (tiles d)))) (int (length (tiles d))) =
   js_rem (js_add b (int (length (tiles d)))) (int (length (tiles d))) \<Longrightarrow>
   setIndex d a s = setIndex d b s"
  by (simp add: setIndex_def)

subsection \<open>Animation bookkeeping\<close>

lemma anim_fields_setIndex [simp]:
  "pointerDown (setIndex d k s) = pointerDown s"
  "isAnimating (setIndex d k s) = isAnimating s"
  "transitionListeners (setIndex d k s) = transitionListeners s"
  "rafQueue (setIndex d k s) = rafQueue s"
  by (simp_all add: setIndex_def Let_def preload_def)

lemma anim_ok_setIndex [simp]: "anim_ok (setIndex d k s) = anim_ok s"
  by (simp add: anim_ok_def)

lemma anim_ok_nav [simp]:
  "anim_ok (prev_lb d s) = anim_ok s" "anim_ok (next_lb d s) = anim_ok s"
  by (simp_all add: prev_lb_def next_lb_def)

lemma anim_ok_close [simp]: "anim_ok (close_lb d s) = anim_ok s"
  by (simp add: close_lb_def anim_ok_def)

lemma anim_ok_open [simp]: "anim_ok (open_lb d i s) = anim_ok s"
  by (simp add: open_lb_def) (simp add: anim_ok_def)

lemma anim_ok_click [simp]: "anim_ok (gallery_click d img s) = anim_ok s"
  by (simp add: gallery_click_def Let_def)

lemma anim_ok_keydown [simp]: "anim_ok (keydown d key s) = anim_ok s"
  by (simp add: keydown_def Let_def)

lemma anim_ok_pointerdown: "anim_ok s \<Longrightarrow> anim_ok (pointerdown p x t s)"
  by (simp add: pointerdown_def anim_ok_def)

lemma anim_ok_pointermove: "anim_ok s \<Longrightarrow> anim_ok (pointermove p x w s)"
  by (simp add: pointermove_def setDragVisual_def Let_def anim_ok_def)

lemma anim_ok_finishSwipe: "anim_ok s \<Longrightarrow> anim_ok (finishSwipe t w s)"
  by (simp add: finishSwipe_def animateTo_def Let_def anim_ok_def)

lemma frame_fields [simp]:
  "pointerDown (fold run_frame_cb q s) = pointerDown s"
  "isAnimating (fold run_frame_cb q s) = isAnimating s"
  "rafQueue (fold run_frame_cb q s) = rafQueue s"
proof (induction q arbitrary: s)
  case Nil
  { case 1 show ?case by simp next
    case 2 show ?case by simp next
    case 3 show ?case by simp }
next
  case (Cons f q)
  { case 1 show ?case by (cases f) (simp_all add: Cons resetVisual_def) next
    case 2 show ?case by (cases f) (simp_all add: Cons resetVisual_def) next
    case 3 show ?case by (cases f) (simp_all add: Cons resetVisual_def) }
qed

lemma frame_slides_listeners:
  "list_all is_slide q \<Longrightarrow> transitionListeners (fold run_frame_cb q s) = transitionListeners s"
proof (induction q arbitrary: s)
  case Nil
  then show ?case by simp
next
  case (Cons f q)
  then show ?case by (cases f) (simp_all add: is_slide_def resetVisual_def)
qed

lemma anim_ok_frame: "anim_ok s \<Longrightarrow> anim_ok (lb_step d Frame s)"
  by (auto simp: anim_ok_def frame_slides_listeners)

lemma done_fields:
  "transitionListeners (done_lb d cb s) = transitionListeners s"
  "pointerDown (done_lb d cb s) = pointerDown s"
  "\<not> isAnimating (done_lb d cb s)"
  "list_all is_slide (rafQueue (done_lb d cb s)) = list_all is_slide (rafQueue s)"
  by (cases cb; simp add: done_lb_def resetVisual_def Let_def prev_lb_def next_lb_def is_slide_def)+

lemma fold_done_fields:
  "transitionListeners (fold (done_lb d) cbs s) = transitionListeners s"
  "pointerDown (fold (done_lb d) cbs s) = pointerDown s"
  "list_all is_slide (rafQueue (fold (done_lb d) cbs s)) = list_all is_slide (rafQueue s)"
  by (induction cbs arbitrary: s; simp add: done_fields)+

lemma fold_done_idle: "cbs \<noteq> [] \<Longrightarrow> \<not> isAnimating (fold (done_lb d) cbs s)"
proof (induction cbs arbitrary: s)
  case Nil
  then show ?case by simp
next
  case (Cons cb cbs)
  then show ?case by (cases cbs) (simp_all add: done_fields)
qed

lemma anim_ok_transitionend: "anim_ok s \<Longrightarrow> anim_ok (lb_step d TransitionEnd s)"
proof (cases "transitionListeners s = []")
  case True
  assume "anim_ok s"
  then show ?thesis using True by (simp add: anim_ok_def)
next
  case False
  assume ok: "anim_ok s"
  with False have q: "list_all is_slide (rafQueue s)" and pd: "\<not> pointerDown s"
    by (auto simp: anim_ok_def)
  show ?thesis
    using q pd fold_done_idle[OF False, of d "s\<lparr>transitionListeners := []\<rparr>"]
    by (simp add: anim_ok_def fold_done_fields)
qed

lemma anim_ok_step: "anim_ok s \<Longrightarrow> anim_ok (lb_step d ev s)"
proof (cases ev)
  case Frame
  assume "anim_ok s" then show ?thesis unfolding Frame by (rule anim_ok_frame)
next
  case TransitionEnd
  assume "anim_ok s" then show ?thesis unfolding TransitionEnd by (rule anim_ok_transitionend)
qed (simp_all add: anim_ok_pointerdown anim_ok_pointermove anim_ok_finishSwipe)

lemma anim_ok_run: "anim_ok s \<Longrightarrow> anim_ok (lb_run d evs s)"
  unfolding lb_run_def by (induction evs arbitrary: s) (simp_all add: anim_ok_step)

lemma anim_ok_init: "anim_ok lightbox0"
  by (simp add: anim_ok_def lightbox0_def)

subsection \<open>A finished swipe, its frame and its transition end\<close>

lemma finishSwipe_cancel:
  assumes "pointerDown s" "\<not> isAnimating s"
    and "\<not> (\<bar>deltaX s\<bar> > max 320 w * 0.18 \<or> \<bar>deltaX s / max 1 (t - startT s)\<bar> > 0.65)"
  shows "finishSwipe t w s =
           s\<lparr>pointerDown := False, isAnimating := True, isDragging := False,
             rafQueue := rafQueue s @ [Animate 0 1 CancelCb]\<rparr>"
  using assms by (simp add: finishSwipe_def animateTo_def Let_def)

lemma finishSwipe_commit:
  assumes "pointerDown s" "\<not> isAnimating s"
    and "\<bar>deltaX s\<bar> > max 320 w * 0.18 \<or> \<bar>deltaX s / max 1 (t - startT s)\<bar> > 0.65"
  shows "finishSwipe t w s =
           s\<lparr>pointerDown := False, isAnimating := True, isDragging := False,
             rafQueue := rafQueue s @
               [Animate (if deltaX s < 0 then - max 320 w else max 320 w) 0.9
                  (CommitCb (if deltaX s < 0 then 1 else - 1) (max 320 w))]\<rparr>"
  using assms by (simp add: finishSwipe_def animateTo_def Let_def)

lemma frame_slides_visual:
  "list_all is_slide q \<Longrightarrow> q \<noteq> [] \<Longrightarrow>
   transform (fold run_frame_cb q s) = None \<and> opacity (fold run_frame_cb q s) = None"
proof (induction q arbitrary: s)
  case Nil
  then show ?case by simp
next
  case (Cons f q)
  then show ?case
    by (cases f; cases q) (simp_all add: is_slide_def resetVisual_def)
qed

lemma frame_animate:
  assumes "list_all is_slide q" "rafQueue s = q @ [Animate dx op cb]" "transitionListeners s = []"
  shows "transform (lb_step d Frame s) = Some dx"
    and "opacity (lb_step d Frame s) = Some op"
    and "transitionListeners (lb_step d Frame s) = [cb]"
    and "index (lb_step d Frame s) = index s"
    and "isAnimating (lb_step d Frame s) = isAnimating s"
    and "rafQueue (lb_step d Frame s) = []"
  using assms by (simp_all add: frame_slides_listeners)

lemma transitionend_single:
  "transitionListeners s = [cb] \<Longrightarrow>
   lb_step d TransitionEnd s = done_lb d cb (s\<lparr>transitionListeners := []\<rparr>)"
  by simp

lemma index_done_cancel: "index (done_lb d CancelCb s) = index s"
  by (simp add: done_lb_def)

lemma visual_done_cancel:
  "transform (done_lb d CancelCb s) = None" "opacity (done_lb d CancelCb s) = None"
  "\<not> isAnimating (done_lb d CancelCb s)"
  by (simp_all add: done_lb_def resetVisual_def)

lemma index_done_commit:
  "index (done_lb d (CommitCb dir w) s) =
     js_rem (js_add (js_add (index s) (if dir = 1 then 1 else - 1)) (int (length (tiles d))))
       (int (length (tiles d)))"
  by (simp add: done_lb_def Let_def next_lb_def prev_lb_def index_setIndex)

lemma run3: "lb_run d [e1, e2, e3] s = lb_step d e3 (lb_step d e2 (lb_step d e1 s))"
  by (simp add: lb_run_def)

lemma run2: "lb_run d [e1, e2] s = lb_step d e2 (lb_step d e1 s)"
  by (simp add: lb_run_def)

lemma swipe_cancel_run:
  assumes pd: "pointerDown s" and ok: "anim_ok s"
    and no: "\<not> (\<bar>deltaX s\<bar> > max 320 w * 0.18 \<or> \<bar>deltaX s / max 1 (t - startT s)\<bar> > 0.65)"
  shows "transform (lb_step d Frame (finishSwipe t w s)) = Some 0"
    and "opacity (lb_step d Frame (finishSwipe t w s)) = Some 1"
    and "index (lb_step d TransitionEnd (lb_step d Frame (finishSwipe t w s))) = index s"
    and "transform (lb_step d TransitionEnd (lb_step d Frame (finishSwipe t w s))) = None"
    and "opacity (lb_step d TransitionEnd (lb_step d Frame (finishSwipe t w s))) = None"
    and "\<not> isAnimating (lb_step d TransitionEnd (lb_step d Frame (finishSwipe t w s)))"
proof -
  from pd ok have idle: "\<not> isAnimating s" and nl: "transitionListeners s = []"
    and sl: "list_all is_slide (rafQueue s)"
    by (auto simp: anim_ok_def)
  let ?f = "finishSwipe t w s"
  have f: "?f = s\<lparr>pointerDown := False, isAnimating := True, isDragging := False,
             rafQueue := rafQueue s @ [Animate 0 1 CancelCb]\<rparr>"
    by (rule finishSwipe_cancel[OF pd idle no])
  have q: "rafQueue ?f = rafQueue s @ [Animate 0 1 CancelCb]" and l: "transitionListeners ?f = []"
    and i: "index ?f = index s"
    by (simp_all add: f nl)
  note fa = frame_animate[OF sl q l, of d]
  show "transform (lb_step d Frame ?f) = Some 0" by (rule fa(1))
  show "opacity (lb_step d Frame ?f) = Some 1" by (rule fa(2))
  have te: "lb_step d TransitionEnd (lb_step d Frame ?f) =
      done_lb d CancelCb ((lb_step d Frame ?f)\<lparr>transitionListeners := []\<rparr>)"
    by (rule transitionend_single[OF fa(3)])
  show "index (lb_step d TransitionEnd (lb_step d Frame ?f)) = index s"
    by (simp only: te index_done_cancel) (simp add: fa(4) i)
  show "transform (lb_step d TransitionEnd (lb_step d Frame ?f)) = None"
    by (simp only: te visual_done_cancel)
  show "opacity (lb_step d TransitionEnd (lb_step d Frame ?f)) = None"
    by (simp only: te visual_done_cancel)
  show "\<not> isAnimating (lb_step d TransitionEnd (lb_step d Frame ?f))"
    by (simp only: te visual_done_cancel) simp
qed

lemma swipe_commit_run:
  assumes pd: "pointerDown s" and ok: "anim_ok s"
    and yes: "\<bar>deltaX s\<bar> > max 320 w * 0.18 \<or> \<bar>deltaX s / max 1 (t - startT s)\<bar> > 0.65"
  shows "index (lb_step d TransitionEnd (lb_step d Frame (finishSwipe t w s))) =
     js_rem (js_add (js_add (index s) (if deltaX s < 0 then 1 else - 1)) (int (length (tiles d))))
       (int (length (tiles d)))"
proof -
  from pd ok have idle: "\<not> isAnimating s" and nl: "transitionListeners s = []"
    and sl: "list_all is_slide (rafQueue s)"
    by (auto simp: anim_ok_def)
  let ?f = "finishSwipe t w s"
  let ?a = "Animate (if deltaX s < 0 then - max 320 w else max 320 w) 0.9
                  (CommitCb (if deltaX s < 0 then 1 else - 1) (max 320 w))"
  have f: "?f = s\<lparr>pointerDown := False, isAnimating := True, isDragging := False,
             rafQueue := rafQueue s @ [?a]\<rparr>"
    by (rule finishSwipe_commit[OF pd idle yes])
  have q: "rafQueue ?f = rafQueue s @ [?a]" and l: "transitionListeners ?f = []"
    and i: "index ?f = index s"
    by (simp_all add: f nl)
  note fa = frame_animate[OF sl q l, of d]
  have te: "lb_step d TransitionEnd (lb_step d Frame ?f) =
      done_lb d (CommitCb (if deltaX s < 0 then 1 else - 1) (max 320 w))
        ((lb_step d Frame ?f)\<lparr>transitionListeners := []\<rparr>)"
    by (rule transitionend_single[OF fa(3)])
  show ?thesis
    by (simp only: te index_done_commit) (simp add: fa(4) i)
qed

subsection \<open>The concrete inputs, evaluated\<close>

lemma ex_open_eval:
  "ex_open = \<lparr>index = Some 1, isOpen = True, pointerDown = False, startX = 0, deltaX = 0,
      startT = 0, activePointerId = None, isAnimating = False,
      lbHidden = False, scrollerLocked = True, imgSrc = ''b.jpg'', isDragging = False,
      transform = None, opacity = None, preloaded = [''a-full.jpg'', ''c.jpg''], rafQueue = [],
      transitionListeners = []\<rparr>"
  by (simp add: ex_open_def lb_run_def gallery_click_def indexOf_def dom3_def lightbox0_def
      open_lb_def setIndex_def Let_def getFullSrc_def tileAt_def js_rem_def js_add_def
      or_else_def preload_def signed_modulo_int_def)

lemmas swipe_defs = lb_run_def pointerdown_def pointermove_def finishSwipe_def animateTo_def
  setDragVisual_def clamp_def Let_def

lemma ex_drag_narrow_eval:
  "ex_drag_narrow = \<lparr>index = Some 1, isOpen = True, pointerDown = True, startX = 100,
      deltaX = 55, startT = 0, activePointerId = Some 1, isAnimating = False,
      lbHidden = False, scrollerLocked = True, imgSrc = ''b.jpg'', isDragging = True,
      transform = Some 55, opacity = Some (1097 / 1152),
      preloaded = [''a-full.jpg'', ''c.jpg''], rafQueue = [], transitionListeners = []\<rparr>"
  by (simp add: ex_drag_narrow_def ex_open_eval swipe_defs)

lemma ex_nudge_eval:
  "ex_nudge = \<lparr>index = Some 1, isOpen = True, pointerDown = True, startX = 100,
      deltaX = 1 / 2, startT = 0, activePointerId = Some 1, isAnimating = False,
      lbHidden = False, scrollerLocked = True, imgSrc = ''b.jpg'', isDragging = True,
      transform = Some (1 / 2), opacity = Some (7199 / 7200),
      preloaded = [''a-full.jpg'', ''c.jpg''], rafQueue = [], transitionListeners = []\<rparr>"
  by (simp add: ex_nudge_def ex_open_eval swipe_defs)

lemma ex_swipe_eval:
  "ex_swipe = \<lparr>index = Some 1, isOpen = True, pointerDown = True, startX = 500,
      deltaX = - 400, startT = 0, activePointerId = Some 1, isAnimating = False,
      lbHidden = False, scrollerLocked = True, imgSrc = ''b.jpg'', isDragging = True,
      transform = Some (- 400), opacity = Some (8 / 9),
      preloaded = [''a-full.jpg'', ''c.jpg''], rafQueue = [], transitionListeners = []\<rparr>"
  by (simp add: ex_swipe_def ex_open_eval swipe_defs)

lemma ex_anim_eval:
  "ex_anim = \<lparr>index = Some 1, isOpen = True, pointerDown = False, startX = 500,
      deltaX = - 400, startT = 0, activePointerId = Some 1, isAnimating = True,
      lbHidden = False, scrollerLocked = True, imgSrc = ''b.jpg'', isDragging = False,
      transform = Some (- 400), opacity = Some (8 / 9),
      preloaded = [''a-full.jpg'', ''c.jpg''],
      rafQueue = [Animate (- 1000) (9 / 10) (CommitCb 1 1000)], transitionListeners = []\<rparr>"
  by (simp add: ex_anim_def ex_swipe_eval swipe_defs)

lemma dom3_tiles: "tiles dom3 \<noteq> []" "int (length (tiles dom3)) = 3"
  by (simp_all add: dom3_def)

subsection \<open>Commit or cancel\<close>

text \<open>
  Claim C1, as stated with the raw viewport width \<open>W\<close> and the raw elapsed time, fails
  on two drags. On a viewport 300 wide a drag of 55 exceeds \<open>0.18 * 300 = 54\<close>, yet a
  release after a second snaps back and leaves the position alone. A drag of half a pixel
  released after half a millisecond has \<open>\<bar>\<Delta>x\<bar> / elapsed = 1 > 0.65\<close>, yet it snaps back
  too.
\<close>

theorem commit_threshold_counterexample:
  "0.18 * 300 < \<bar>deltaX ex_drag_narrow\<bar>
   \<and> rafQueue (lb_step dom3 (PointerUp 1 1000 300) ex_drag_narrow) = [Animate 0 1 CancelCb]
   \<and> index (lb_run dom3 [PointerUp 1 1000 300, Frame, TransitionEnd] ex_drag_narrow) =
       index ex_drag_narrow
   \<and> 0.65 < \<bar>deltaX ex_nudge / (0.5 - startT ex_nudge)\<bar>
   \<and> rafQueue (lb_step dom3 (PointerUp 1 0.5 1000) ex_nudge) = [Animate 0 1 CancelCb]
   \<and> index (lb_run dom3 [PointerUp 1 0.5 1000, Frame, TransitionEnd] ex_nudge) =
       index ex_nudge"
  by (simp add: ex_drag_narrow_eval ex_nudge_eval swipe_defs done_lb_def resetVisual_def)

text \<open>
  Claim C1, amended. A completed drag (pointer-up or pointer-cancel on an active drag)
  commits if and only if \<open>\<bar>\<Delta>x\<bar> > 0.18 * max 320 W\<close> or
  \<open>\<bar>\<Delta>x / max 1 elapsed\<bar> > 0.65\<close>. A commit queues the slide-out with the commit
  callback, and the frame and transition end that follow move the position by one. Otherwise
  the snap-back is queued: the next frame puts the image at offset 0 and opacity 1, and the
  transition end clears both styles, leaves the position alone and ends the animation.
\<close>

theorem swipe_commit_iff:
  assumes pd: "pointerDown s" and ok: "anim_ok s"
    and ix: "index s = Some i" "0 \<le> i" "i < int (length (tiles d))"
    and ev: "ev = PointerUp p now W \<or> ev = PointerCancel p now W"
  shows "if \<bar>deltaX s\<bar> > 0.18 * max 320 W \<or> \<bar>deltaX s / max 1 (now - startT s)\<bar> > 0.65
         then rafQueue (lb_step d ev s) = rafQueue s @
                [Animate (if deltaX s < 0 then - max 320 W else max 320 W) 0.9
                   (CommitCb (if deltaX s < 0 then 1 else - 1) (max 320 W))]
              \<and> index (lb_run d [ev, Frame, TransitionEnd] s) =
                  Some ((i + (if deltaX s < 0 then 1 else - 1)) mod int (length (tiles d)))
         else rafQueue (lb_step d ev s) = rafQueue s @ [Animate 0 1 CancelCb]
              \<and> transform (lb_run d [ev, Frame] s) = Some 0
              \<and> opacity (lb_run d [ev, Frame] s) = Some 1
              \<and> index (lb_run d [ev, Frame, TransitionEnd] s) = index s
              \<and> transform (lb_run d [ev, Frame, TransitionEnd] s) = None
              \<and> opacity (lb_run d [ev, Frame, TransitionEnd] s) = None
              \<and> \<not> isAnimating (lb_run d [ev, Frame, TransitionEnd] s)"
proof -
  from pd ok have idle: "\<not> isAnimating s" by (auto simp: anim_ok_def)
  have st: "lb_step d ev s = finishSwipe now W s" using ev by auto
  have n: "0 < int (length (tiles d))" using ix by linarith
  show ?thesis
  proof (cases "\<bar>deltaX s\<bar> > max 320 W * 0.18 \<or> \<bar>deltaX s / max 1 (now - startT s)\<bar> > 0.65")
    case True
    have lo: "- int (length (tiles d)) \<le> i + (if deltaX s < 0 then 1 else - 1)"
      using ix n by auto
    have "index (lb_run d [ev, Frame, TransitionEnd] s) =
        Some ((i + (if deltaX s < 0 then 1 else - 1)) mod int (length (tiles d)))"
      unfolding run3 st swipe_commit_run[OF pd ok True] ix(1)
      using js_rem_shift[OF n lo] by (simp add: js_add_def)
    moreover have "rafQueue (lb_step d ev s) = rafQueue s @
                [Animate (if deltaX s < 0 then - max 320 W else max 320 W) 0.9
                   (CommitCb (if deltaX s < 0 then 1 else - 1) (max 320 W))]"
      unfolding st finishSwipe_commit[OF pd idle True] by simp
    ultimately show ?thesis using True by (simp add: mult.commute)
  next
    case False
    note c = swipe_cancel_run[OF pd ok False, of d]
    have "rafQueue (lb_step d ev s) = rafQueue s @ [Animate 0 1 CancelCb]"
      unfolding st finishSwipe_cancel[OF pd idle False] by simp
    then show ?thesis using False c unfolding run3 run2 st by (simp add: mult.commute)
  qed
qed

theorem swipe_commit_iff_witness:
  "pointerDown ex_swipe \<and> anim_ok ex_swipe \<and> index ex_swipe = Some 1
   \<and> rafQueue (lb_step dom3 (PointerUp 1 200 1000) ex_swipe) =
       [Animate (- 1000) 0.9 (CommitCb 1 1000)]
   \<and> index (lb_run dom3 [PointerUp 1 200 1000, Frame, TransitionEnd] ex_swipe) = Some 2"
proof -
  have h: "pointerDown ex_swipe" "anim_ok ex_swipe" "index ex_swipe = Some 1"
    "(0::int) \<le> 1" "1 < int (length (tiles dom3))"
    "PointerUp 1 200 1000 = PointerUp 1 200 1000 \<or> PointerUp 1 200 1000 = PointerCancel 1 200 1000"
    by (simp_all add: ex_swipe_eval anim_ok_def dom3_tiles)
  show ?thesis
    using h(1-3) swipe_commit_iff[OF h]
    by (simp add: ex_swipe_eval dom3_tiles)
qed

subsection \<open>Direction of a committed swipe\<close>

text \<open>
  Claim C7. A committed drag with negative \<open>\<Delta>x\<close> (a swipe to the left) moves the position
  to \<open>(i + 1) mod N\<close>, one with positive \<open>\<Delta>x\<close> moves it to \<open>(i - 1) mod N\<close>, once the
  slide-out has run its frame and its transition end; a committed drag never has \<open>\<Delta>x = 0\<close>.
\<close>

theorem swipe_direction:
  assumes pd: "pointerDown s" and ok: "anim_ok s"
    and ix: "index s = Some i" "0 \<le> i" "i < int (length (tiles d))"
    and ev: "ev = PointerUp p now W \<or> ev = PointerCancel p now W"
    and commit: "\<bar>deltaX s\<bar> > max 320 W * 0.18 \<or> \<bar>deltaX s / max 1 (now - startT s)\<bar> > 0.65"
  shows "(deltaX s < 0 \<longrightarrow> index (lb_run d [ev, Frame, TransitionEnd] s) =
            Some ((i + 1) mod int (length (tiles d))))
     \<and> (deltaX s > 0 \<longrightarrow> index (lb_run d [ev, Frame, TransitionEnd] s) =
            Some ((i - 1) mod int (length (tiles d))))
     \<and> deltaX s \<noteq> 0"
proof -
  have st: "lb_step d ev s = finishSwipe now W s" using ev by auto
  have n: "0 < int (length (tiles d))" using ix by linarith
  have lo: "- int (length (tiles d)) \<le> i + (if deltaX s < 0 then 1 else - 1)"
    using ix n by auto
  have run: "index (lb_run d [ev, Frame, TransitionEnd] s) =
        Some ((i + (if deltaX s < 0 then 1 else - 1)) mod int (length (tiles d)))"
    unfolding run3 st swipe_commit_run[OF pd ok commit] ix(1)
    using js_rem_shift[OF n lo] by (simp add: js_add_def)
  have nz: "deltaX s \<noteq> 0" using commit by auto
  show ?thesis using run nz by simp
qed

theorem swipe_direction_witness:
  "pointerDown ex_swipe \<and> anim_ok ex_swipe \<and> index ex_swipe = Some 1 \<and> deltaX ex_swipe < 0
   \<and> \<bar>deltaX ex_swipe\<bar> > max 320 1000 * 0.18
   \<and> index (lb_run dom3 [PointerUp 1 200 1000, Frame, TransitionEnd] ex_swipe) = Some 2"
proof -
  have h: "pointerDown ex_swipe" "anim_ok ex_swipe" "index ex_swipe = Some 1"
    "(0::int) \<le> 1" "1 < int (length (tiles dom3))"
    "PointerUp 1 200 1000 = PointerUp 1 200 1000 \<or> PointerUp 1 200 1000 = PointerCancel 1 200 1000"
    "\<bar>deltaX ex_swipe\<bar> > max 320 1000 * 0.18
       \<or> \<bar>deltaX ex_swipe / max 1 (200 - startT ex_swipe)\<bar> > 0.65"
    by (simp_all add: ex_swipe_eval anim_ok_def dom3_tiles)
  show ?thesis
    using h(1-3) swipe_direction[OF h]
    by (simp add: ex_swipe_eval dom3_tiles)
qed

subsection \<open>The effective width\<close>

text \<open>
  Claim C10. On a viewport narrower than 320 the drag feedback and the commit decision use
  the width 320: the opacity is \<open>1 - clamp (\<bar>dx\<bar> / (320 * 0.9)) 0 1 * 0.25\<close>, and a drag
  that is not fast enough commits exactly when \<open>\<bar>\<Delta>x\<bar> > 0.18 * 320\<close>, sliding out to
  \<open>\<plusminus>320\<close>.
\<close>

theorem effective_width_narrow:
  assumes "innerWidth < 320"
  shows "opacity (setDragVisual innerWidth dx s) = Some (1 - clamp (\<bar>dx\<bar> / (320 * 0.9)) 0 1 * 0.25)
     \<and> (pointerDown s \<and> \<not> isAnimating s \<and> \<not> \<bar>deltaX s / max 1 (now - startT s)\<bar> > 0.65
          \<longrightarrow> rafQueue (finishSwipe now innerWidth s) = rafQueue s @
                [if \<bar>deltaX s\<bar> > 0.18 * 320
                 then Animate (if deltaX s < 0 then - 320 else 320) 0.9
                        (CommitCb (if deltaX s < 0 then 1 else - 1) 320)
                 else Animate 0 1 CancelCb])"
  using assms by (simp add: setDragVisual_def finishSwipe_def animateTo_def Let_def max_def)

theorem effective_width_narrow_witness:
  "(300::real) < 320
   \<and> opacity (setDragVisual 300 55 ex_drag_narrow) = Some (1 - clamp (\<bar>55\<bar> / (320 * 0.9)) 0 1 * 0.25)
   \<and> pointerDown ex_drag_narrow \<and> \<not> isAnimating ex_drag_narrow
   \<and> \<not> \<bar>deltaX ex_drag_narrow / max 1 (1000 - startT ex_drag_narrow)\<bar> > 0.65
   \<and> rafQueue (finishSwipe 1000 300 ex_drag_narrow) = [Animate 0 1 CancelCb]"
proof -
  have h: "(300::real) < 320" by simp
  have g: "pointerDown ex_drag_narrow" "\<not> isAnimating ex_drag_narrow"
    "\<not> \<bar>deltaX ex_drag_narrow / max 1 (1000 - startT ex_drag_narrow)\<bar> > 0.65"
    by (simp_all add: ex_drag_narrow_eval)
  show ?thesis
    using g effective_width_narrow[OF h, of 55 ex_drag_narrow 1000]
    by (simp add: ex_drag_narrow_eval)
qed

subsection \<open>Circular navigation\<close>

text \<open>
  Claim C4. With \<open>N \<ge> 1\<close> tiles, \<open>setIndex (-1)\<close> yields the same state as
  \<open>setIndex (N - 1)\<close> and \<open>setIndex N\<close> the same as \<open>setIndex 0\<close>; every event keeps the
  position inside \<open>[0, N)\<close>, and so does every sequence of events from start-up.
\<close>

theorem setIndex_circular:
  assumes ne: "tiles d \<noteq> []"
  shows "setIndex d (Some (- 1)) s = setIndex d (Some (int (length (tiles d)) - 1)) s
     \<and> setIndex d (Some (int (length (tiles d)))) s = setIndex d (Some 0) s
     \<and> index (setIndex d (Some (- 1)) s) = Some (int (length (tiles d)) - 1)
     \<and> index (setIndex d (Some (int (length (tiles d)))) s) = Some 0
     \<and> (index_ok d s \<longrightarrow> index_ok d (lb_step d ev s))
     \<and> index_ok d (lb_run d evs lightbox0)"
proof -
  let ?n = "int (length (tiles d))"
  have n: "0 < ?n" using ne by simp
  have r1: "js_rem (js_add (Some (- 1)) ?n) ?n = Some (?n - 1)"
    using js_rem_shift[OF n, of "- 1"] n by (simp add: zmod_minus1)
  have r2: "js_rem (js_add (Some (?n - 1)) ?n) ?n = Some (?n - 1)"
    using js_rem_shift[OF n, of "?n - 1"] n by (simp add: zmod_minus1)
  have r3: "js_rem (js_add (Some ?n) ?n) ?n = Some 0"
    using js_rem_shift[OF n, of "?n"] n by simp
  have r4: "js_rem (js_add (Some 0) ?n) ?n = Some 0"
    using js_rem_shift[OF n, of 0] n by simp
  have e1: "setIndex d (Some (- 1)) s = setIndex d (Some (?n - 1)) s"
    by (rule setIndex_cong) (simp only: r1 r2)
  have e2: "setIndex d (Some ?n) s = setIndex d (Some 0) s"
    by (rule setIndex_cong) (simp only: r3 r4)
  have i1: "index (setIndex d (Some (- 1)) s) = Some (?n - 1)"
    by (simp only: index_setIndex r1)
  have i2: "index (setIndex d (Some ?n) s) = Some 0"
    by (simp only: index_setIndex r3)
  have st: "index_ok d s \<longrightarrow> index_ok d (lb_step d ev s)"
    using index_ok_step[OF ne] by blast
  have "index_ok d lightbox0" using n by (simp add: index_ok_def lightbox0_def)
  then have rn: "index_ok d (lb_run d evs lightbox0)" by (rule index_ok_run[OF ne])
  from e1 e2 i1 i2 st rn show ?thesis by blast
qed

theorem setIndex_circular_witness:
  "tiles dom3 \<noteq> []
   \<and> setIndex dom3 (Some (- 1)) ex_open = setIndex dom3 (Some 2) ex_open
   \<and> setIndex dom3 (Some 3) ex_open = setIndex dom3 (Some 0) ex_open
   \<and> index (setIndex dom3 (Some (- 1)) ex_open) = Some 2
   \<and> index_ok dom3 ex_open
   \<and> index_ok dom3 (lb_step dom3 (KeyDown ''ArrowRight'') ex_open)
   \<and> index_ok dom3 (lb_run dom3 [GalleryClick (Some 10), PrevClick] lightbox0)"
proof -
  have h: "tiles dom3 \<noteq> []" "index_ok dom3 ex_open"
    by (simp_all add: dom3_tiles index_ok_def ex_open_eval)
  show ?thesis
    using h setIndex_circular[OF h(1), of ex_open "KeyDown ''ArrowRight''"
        "[GalleryClick (Some 10), PrevClick]"]
    by (simp add: dom3_tiles index_setIndex js_rem_def js_add_def signed_modulo_int_def)
qed

lemma lightbox_inert_without_tiles: "tiles d = [] \<Longrightarrow> lightbox_init d = None"
  by (simp add: lightbox_init_def)

text \<open>
  Claim C9. When the lightbox is set up at all, the tile list is not empty: the divisor of
  the remainder in \<open>setIndex\<close> is never 0, the position never becomes \<^verbatim>\<open>NaN\<close>, and it
  stays inside the tile list along every sequence of events.
\<close>

theorem setIndex_modulus_nonzero:
  assumes "lightbox_init d = Some s0"
  shows "1 \<le> length (tiles d)
     \<and> js_rem (js_add (Some k) (int (length (tiles d)))) (int (length (tiles d))) \<noteq> None
     \<and> index_ok d (lb_run d evs s0)
     \<and> index (setIndex d (Some k) (lb_run d evs s0)) \<noteq> None"
proof -
  from assms have ne: "tiles d \<noteq> []" and s0: "s0 = lightbox0"
    by (auto simp: lightbox_init_def split: if_splits)
  have n: "int (length (tiles d)) \<noteq> 0" using ne by simp
  have r: "js_rem (js_add (Some k) (int (length (tiles d)))) (int (length (tiles d))) \<noteq> None"
    using n by (simp add: js_rem_def js_add_def)
  have "index_ok d lightbox0" using ne by (simp add: index_ok_def lightbox0_def)
  then have ok: "index_ok d (lb_run d evs s0)" unfolding s0 by (rule index_ok_run[OF ne])
  show ?thesis using ne r ok by (simp add: index_setIndex Suc_le_eq)
qed

theorem setIndex_modulus_nonzero_witness:
  "lightbox_init dom3 = Some lightbox0 \<and> 1 \<le> length (tiles dom3)
   \<and> index_ok dom3 (lb_run dom3 [GalleryClick (Some 12), NextClick] lightbox0)
   \<and> index (setIndex dom3 (Some (- 7)) (lb_run dom3 [GalleryClick (Some 12), NextClick] lightbox0))
       \<noteq> None"
proof -
  have h: "lightbox_init dom3 = Some lightbox0"
    by (simp add: lightbox_init_def dom3_def)
  show ?thesis
    using h setIndex_modulus_nonzero[OF h, of "- 7" "[GalleryClick (Some 12), NextClick]"]
    by simp
qed

subsection \<open>What an animation in flight blocks\<close>

text \<open>
  Claim C2, as stated, fails for the keyboard and the buttons: while the slide-out of a
  committed swipe is in flight, the arrow keys and the prev/next buttons still move the
  position.
\<close>

theorem navigation_while_animating_counterexample:
  "isAnimating ex_anim \<and> isOpen ex_anim \<and> index ex_anim = Some 1
   \<and> index (lb_step dom3 (KeyDown ''ArrowRight'') ex_anim) = Some 2
   \<and> index (lb_step dom3 (KeyDown ''ArrowLeft'') ex_anim) = Some 0
   \<and> index (lb_step dom3 NextClick ex_anim) = Some 2
   \<and> index (lb_step dom3 PrevClick ex_anim) = Some 0"
  by (simp add: ex_anim_eval keydown_def next_lb_def prev_lb_def Let_def
      index_setIndex js_rem_def js_add_def dom3_tiles signed_modulo_int_def dom3_def)

text \<open>
  Claim C2, amended. While \<open>isAnimating\<close> is true a pointer-down changes nothing, so no
  drag session starts. The arrow keys (while the lightbox is open) and the prev/next
  buttons are not gated on \<open>isAnimating\<close>: they call \<open>prev\<close> and \<open>next\<close> as at any other time.
\<close>

theorem animating_blocks_pointerdown:
  assumes "isAnimating s"
  shows "lb_step d (PointerDown p x t) s = s
     \<and> lb_step d (KeyDown ''ArrowLeft'') s = (if isOpen s then prev_lb d s else s)
     \<and> lb_step d (KeyDown ''ArrowRight'') s = (if isOpen s then next_lb d s else s)
     \<and> lb_step d PrevClick s = (if hasPrev d then prev_lb d s else s)
     \<and> lb_step d NextClick s = (if hasNext d then next_lb d s else s)"
  using assms by (simp add: pointerdown_def keydown_def Let_def)

theorem animating_blocks_pointerdown_witness:
  "isAnimating ex_anim
   \<and> lb_step dom3 (PointerDown 7 10 250) ex_anim = ex_anim
   \<and> lb_step dom3 (KeyDown ''ArrowLeft'') ex_anim = prev_lb dom3 ex_anim
   \<and> lb_step dom3 NextClick ex_anim = next_lb dom3 ex_anim"
proof -
  have h: "isAnimating ex_anim" by (simp add: ex_anim_eval)
  show ?thesis
    using h animating_blocks_pointerdown[OF h, of dom3 7 10 250]
    by (simp add: ex_anim_eval dom3_def)
qed

subsection \<open>Events of another pointer\<close>

lemma pointermove_other_pointer:
  "Some p \<noteq> activePointerId s \<Longrightarrow> lb_step d (PointerMove p x w) s = s"
  by (simp add: pointermove_def)

text \<open>
  Claim C3 at a concrete drag: the session belongs to pointer 1 and \<open>\<Delta>x = -400\<close>. A
  pointer-move of pointer 2 is ignored, but a pointer-up or a pointer-cancel of pointer 2
  finishes the swipe exactly as the session's own pointer would: the drag ends, the
  slide-out starts, and the position moves from 1 to 2.
\<close>

theorem pointerup_other_pointer_finishes:
  "pointerDown ex_swipe \<and> activePointerId ex_swipe = Some 1 \<and> deltaX ex_swipe = - 400
   \<and> lb_step dom3 (PointerMove 2 0 1000) ex_swipe = ex_swipe
   \<and> lb_step dom3 (PointerUp 2 200 1000) ex_swipe = ex_anim
   \<and> lb_step dom3 (PointerCancel 2 200 1000) ex_swipe = ex_anim
   \<and> ex_anim \<noteq> ex_swipe \<and> \<not> pointerDown ex_anim \<and> isAnimating ex_anim
   \<and> index ex_swipe = Some 1
   \<and> index (lb_run dom3 [PointerUp 2 200 1000, Frame, TransitionEnd] ex_swipe) = Some 2"
  by (simp add: ex_anim_eval ex_swipe_eval swipe_defs done_lb_def next_lb_def
      index_setIndex js_rem_def js_add_def dom3_tiles signed_modulo_int_def)

end
